theory Spec2Isabelle
  imports Main
begin

section \<open>FlatTree: a tree stored as two parallel vectors\<close>

text \<open>
  The class \<open>FlatTree<T>\<close> of \<open>FlatTree.h\<close> owns two vectors: \<open>m_data\<close> (the node
  values) and \<open>m_parent_index\<close> (for every node, the index of its parent). Node 0 is
  the root. The embedding keeps the two vectors as lists in a record and every member
  function as a function from the object (and its arguments) to its result and, for the
  mutating members, the object afterwards.

  \<^item> \<open>std::size_t\<close> indices are \<open>nat\<close>: the code only compares indices, stores them
    and increments a loop counter below \<open>size()\<close>, so no arithmetic wraps. The one
    subtraction, \<open>size() - 1\<close> in \<open>remove_node\<close>, is reached with an empty vector only
    on an access that is out of bounds anyway.
  \<^item> An \<open>assert\<close> that fails and a vector access outside \<open>[0, size())\<close> (undefined
    behaviour in C++) are outcomes of their own, so that no theorem silently relies on
    what such a run would do.
  \<^item> The descendant collection of \<open>getAllDescendants\<close> is recursive and need not
    terminate; it carries a bound on its recursion depth and reports \<open>OutOfFuel\<close> when
    the bound is reached.
\<close>

datatype assertion =
    CollectionsNotOfEqualSize
  | RootNotFirstNode
  | NodeIndexInvalid
  | TreeStructureInvalid
  | RemoveNodeWentWrong

datatype fault = AssertionFailed assertion | OutOfBounds

datatype 'a outcome = Returns 'a | Aborts fault | OutOfFuel

record 'a FlatTree =
  m_data :: "'a list"
  m_parent_index :: "nat list"

definition size_for_parallelization :: nat where
  "size_for_parallelization = 2000"

subsection \<open>Constructors\<close>

text \<open>\<open>explicit FlatTree(const T& xi_data)\<close>: a tree which only has a root.\<close>

definition FlatTree_root :: "'a \<Rightarrow> 'a FlatTree" where
  "FlatTree_root xi_data = \<lparr>m_data = [xi_data], m_parent_index = [0]\<rparr>"

text \<open>
  \<open>FlatTree(const C1& xi_data, const C2& xi_parent_index)\<close> for two iterable
  collections that are not vectors (lines 82-100, and its moving twin): it asserts the
  equal sizes, copies both collections and asserts \<open>m_parent_index[0] == 0\<close>. With two
  empty collections that last read is out of bounds.
\<close>

definition FlatTree_collections :: "'a list \<Rightarrow> nat list \<Rightarrow> 'a FlatTree outcome" where
  "FlatTree_collections xi_data xi_parent_index =
     (let len = length xi_data in
      if len \<noteq> length xi_parent_index then Aborts (AssertionFailed CollectionsNotOfEqualSize)
      else
        let t = \<lparr>m_data = xi_data, m_parent_index = xi_parent_index\<rparr> in
        if m_parent_index t = [] then Aborts OutOfBounds
        else if m_parent_index t ! 0 \<noteq> 0 then Aborts (AssertionFailed RootNotFirstNode)
        else Returns t)"

text \<open>
  \<open>FlatTree(const std::vector<T>&, const std::vector<std::size_t>&)\<close> (lines 123-128,
  and its moving twin): the members are initialised from the arguments and only the
  equal sizes are asserted.
\<close>

definition FlatTree_vector :: "'a list \<Rightarrow> nat list \<Rightarrow> 'a FlatTree outcome" where
  "FlatTree_vector xi_data xi_parent_index =
     (let t = \<lparr>m_data = xi_data, m_parent_index = xi_parent_index\<rparr> in
      if length (m_data t) \<noteq> length (m_parent_index t)
      then Aborts (AssertionFailed CollectionsNotOfEqualSize)
      else Returns t)"

subsection \<open>Capacity\<close>

definition size_ft :: "'a FlatTree \<Rightarrow> nat" where
  "size_ft t = length (m_data t)"

definition empty_ft :: "'a FlatTree \<Rightarrow> bool" where
  "empty_ft t = (length (m_data t) = 1)"

subsection \<open>Validity\<close>

text \<open>
  \<open>isValid\<close>: \<open>(m_data.size() == m_parent_index.size()) && (m_parent_index[0] == 0)\<close>.
  The second operand is evaluated only when the sizes agree; when both vectors are empty
  it reads out of bounds.
\<close>

definition isValid :: "'a FlatTree \<Rightarrow> bool outcome" where
  "isValid t =
     (if length (m_data t) \<noteq> length (m_parent_index t) then Returns False
      else if m_parent_index t = [] then Aborts OutOfBounds
      else Returns (m_parent_index t ! 0 = 0))"

subsection \<open>Modifiers\<close>

text \<open>\<open>clear\<close> keeps the root value, which it reads from \<open>m_data[0]\<close> first.\<close>

definition clear :: "'a FlatTree \<Rightarrow> 'a FlatTree outcome" where
  "clear t =
     (if m_data t = [] then Aborts OutOfBounds
      else
        let root = m_data t ! 0 in
        Returns \<lparr>m_data = [] @ [root], m_parent_index = [] @ [0]\<rparr>)"

text \<open>
  \<open>std::vector::resize(n)\<close> truncates to \<open>n\<close> elements or appends value-initialised
  ones. The value-initialised \<open>T\<close> is the parameter \<open>dflt\<close>; for \<open>std::size_t\<close> it
  is 0.
\<close>

definition vector_resize :: "'b \<Rightarrow> nat \<Rightarrow> 'b list \<Rightarrow> 'b list" where
  "vector_resize dflt n xs =
     (if n \<le> length xs then take n xs else xs @ replicate (n - length xs) dflt)"

definition resize :: "'a \<Rightarrow> 'a FlatTree \<Rightarrow> nat \<Rightarrow> 'a FlatTree" where
  "resize dflt t xi_count =
     \<lparr>m_data = vector_resize dflt xi_count (m_data t),
      m_parent_index = vector_resize 0 xi_count (m_parent_index t)\<rparr>"

subsection \<open>Scans of the parent-index vector\<close>

text \<open>
  \<open>std::find\<close> as the position of the first match, the length standing for \<open>end()\<close>.
  The sequential and the parallel variants call the same algorithm under two execution
  policies; the value is the same.
\<close>

fun std_find :: "nat list \<Rightarrow> nat \<Rightarrow> nat" where
  "std_find [] v = 0"
| "std_find (x # xs) v = (if x = v then 0 else Suc (std_find xs v))"

definition doesIndexExistSequential :: "'a FlatTree \<Rightarrow> nat \<Rightarrow> bool" where
  "doesIndexExistSequential t xi_index =
     (if std_find (m_parent_index t) xi_index = length (m_parent_index t) then False else True)"

definition doesIndexExistParallel :: "'a FlatTree \<Rightarrow> nat \<Rightarrow> bool" where
  "doesIndexExistParallel t xi_index =
     (if std_find (m_parent_index t) xi_index = length (m_parent_index t) then False else True)"

definition doesIndexExist :: "'a FlatTree \<Rightarrow> nat \<Rightarrow> bool" where
  "doesIndexExist t xi_index =
     (let len = size_ft t in
      if len < size_for_parallelization then doesIndexExistSequential t xi_index
      else doesIndexExistParallel t xi_index)"

definition getNumOfDescendantsSequential :: "'a FlatTree \<Rightarrow> nat \<Rightarrow> nat" where
  "getNumOfDescendantsSequential t xi_parent_index = count_list (m_parent_index t) xi_parent_index"

definition getNumOfDescendantsParallel :: "'a FlatTree \<Rightarrow> nat \<Rightarrow> nat" where
  "getNumOfDescendantsParallel t xi_parent_index = count_list (m_parent_index t) xi_parent_index"

definition getNumOfDescendants :: "'a FlatTree \<Rightarrow> nat \<Rightarrow> nat" where
  "getNumOfDescendants t xi_parent_index =
     (let len = size_ft t in
      if len < size_for_parallelization then getNumOfDescendantsSequential t xi_parent_index
      else getNumOfDescendantsParallel t xi_parent_index)"

definition isLeaf :: "'a FlatTree \<Rightarrow> nat \<Rightarrow> bool outcome" where
  "isLeaf t xi_index =
     (if \<not> xi_index < length (m_parent_index t) then Aborts (AssertionFailed NodeIndexInvalid)
      else Returns (getNumOfDescendants t xi_index = 0))"

definition getParentIndex :: "'a FlatTree \<Rightarrow> nat \<Rightarrow> nat outcome" where
  "getParentIndex t xi_index =
     (case isValid t of
        Aborts f \<Rightarrow> Aborts f
      | OutOfFuel \<Rightarrow> OutOfFuel
      | Returns v \<Rightarrow>
          if \<not> v then Aborts (AssertionFailed TreeStructureInvalid)
          else if \<not> xi_index < length (m_parent_index t) then Aborts (AssertionFailed NodeIndexInvalid)
          else Returns (if xi_index > 0 then m_parent_index t ! xi_index else 0))"

subsection \<open>Insertion\<close>

text \<open>
  \<open>insert(xi_parent_id, T&& xi_node)\<close>, lines 283-293. The disjunction short-circuits:
  \<open>isValid\<close> is not called when the parent index is beyond \<open>m_parent_index\<close>.
\<close>

definition insert_ft :: "'a FlatTree \<Rightarrow> nat \<Rightarrow> 'a \<Rightarrow> (bool \<times> 'a FlatTree) outcome" where
  "insert_ft t xi_parent_id xi_node =
     (if xi_parent_id \<ge> length (m_parent_index t) then Returns (False, t)
      else
        case isValid t of
          Aborts f \<Rightarrow> Aborts f
        | OutOfFuel \<Rightarrow> OutOfFuel
        | Returns v \<Rightarrow>
            if \<not> v then Returns (False, t)
            else Returns (True, t\<lparr>m_data := m_data t @ [xi_node],
                                   m_parent_index := m_parent_index t @ [xi_parent_id]\<rparr>))"

subsection \<open>Descendant queries\<close>

text \<open>
  The scan of \<open>getDescendants\<close> (lines 234-244): \<open>i\<close> runs from 1 while
  \<open>i < size()\<close>, a match appends \<open>i\<close> to the output collection and sets the flag.
  The read \<open>m_parent_index[i]\<close> is in bounds because \<open>getDescendants\<close> enters the
  loop only after \<open>isValid\<close> has found both vectors of the same size.
\<close>

function getDescendants_loop ::
  "'a FlatTree \<Rightarrow> nat \<Rightarrow> nat \<Rightarrow> bool \<Rightarrow> nat list \<Rightarrow> bool \<times> nat list" where
  "getDescendants_loop t xi_parent_index i xo_output xo_descendants =
     (if i < size_ft t then
        (if m_parent_index t ! i \<noteq> xi_parent_index
         then getDescendants_loop t xi_parent_index (i + 1) xo_output xo_descendants
         else getDescendants_loop t xi_parent_index (i + 1) True (xo_descendants @ [i]))
      else (xo_output, xo_descendants))"
  by pat_completeness auto
termination
  by (relation "measure (\<lambda>(t, p, i, b, xo). size_ft t - i)") auto

declare getDescendants_loop.simps [simp del]

definition getDescendants ::
  "'a FlatTree \<Rightarrow> nat \<Rightarrow> nat list \<Rightarrow> (bool \<times> nat list) outcome" where
  "getDescendants t xi_parent_index xo_descendants =
     (case isValid t of
        Aborts f \<Rightarrow> Aborts f
      | OutOfFuel \<Rightarrow> OutOfFuel
      | Returns v \<Rightarrow>
          if \<not> v then Returns (False, xo_descendants)
          else if xi_parent_index = 0 then Returns (False, xo_descendants)
          else Returns (getDescendants_loop t xi_parent_index 1 False xo_descendants))"

text \<open>\<open>getAllDescendantsFromRoot\<close> (lines 511-524) appends every index from 1 on.\<close>

function getAllDescendantsFromRoot_loop ::
  "'a FlatTree \<Rightarrow> nat \<Rightarrow> bool \<Rightarrow> nat list \<Rightarrow> bool \<times> nat list" where
  "getAllDescendantsFromRoot_loop t i xo_output xo_descendants =
     (if i < size_ft t
      then getAllDescendantsFromRoot_loop t (i + 1) True (xo_descendants @ [i])
      else (xo_output, xo_descendants))"
  by pat_completeness auto
termination
  by (relation "measure (\<lambda>(t, i, b, xo). size_ft t - i)") auto

declare getAllDescendantsFromRoot_loop.simps [simp del]

definition getAllDescendantsFromRoot :: "'a FlatTree \<Rightarrow> nat list \<Rightarrow> bool \<times> nat list" where
  "getAllDescendantsFromRoot t xo_descendants =
     getAllDescendantsFromRoot_loop t 1 False xo_descendants"

text \<open>
  \<open>getAllDescendants\<close> (lines 257-262) and \<open>getAllDescendantsNotFromRoot\<close> (lines
  496-508) call each other. The loop \<open>for (const auto i : xo_descendants)\<close> of the
  latter takes \<open>begin()\<close> and \<open>end()\<close> of the output collection once, when it starts:
  it visits the positions from 0 up to the size the collection had at that moment,
  which covers whatever the caller had already put there, and reads each element when it
  reaches it. The calls in its body append to the same collection. \<open>other_generations\<close>
  is that loop, with the iterator as the position \<open>pos\<close> and the saved \<open>end()\<close> as
  \<open>end_pos\<close>; elements below \<open>end_pos\<close> are never overwritten, so the read is in
  bounds. (A vector that has to grow while the loop runs invalidates the iterators, which
  is undefined behaviour; the capacity of the vector is not part of this model.)

  The first argument bounds the depth of the recursion: each call of
  \<open>getAllDescendants\<close> from the loop uses one unit, and the loop reports \<open>OutOfFuel\<close>
  when it would have to call with none left.
\<close>

function getAllDescendants ::
    "nat \<Rightarrow> 'a FlatTree \<Rightarrow> nat \<Rightarrow> nat list \<Rightarrow> (bool \<times> nat list) outcome"
  and getAllDescendantsNotFromRoot ::
    "nat \<Rightarrow> 'a FlatTree \<Rightarrow> nat \<Rightarrow> nat list \<Rightarrow> (bool \<times> nat list) outcome"
  and other_generations ::
    "nat \<Rightarrow> 'a FlatTree \<Rightarrow> nat \<Rightarrow> nat \<Rightarrow> nat list \<Rightarrow> nat list outcome" where
  "getAllDescendants depth t xi_parent_index xo_descendants =
     (if xi_parent_index \<noteq> 0
      then getAllDescendantsNotFromRoot depth t xi_parent_index xo_descendants
      else Returns (getAllDescendantsFromRoot t xo_descendants))"
| "getAllDescendantsNotFromRoot depth t xi_parent_index xo_descendants =
     (case getDescendants t xi_parent_index xo_descendants of
        Aborts f \<Rightarrow> Aborts f
      | OutOfFuel \<Rightarrow> OutOfFuel
      | Returns (xo_output, xo1) \<Rightarrow>
          if \<not> xo_output then Returns (False, xo1)
          else
            (case other_generations depth t 0 (length xo1) xo1 of
               Aborts f \<Rightarrow> Aborts f
             | OutOfFuel \<Rightarrow> OutOfFuel
             | Returns xo2 \<Rightarrow> Returns (True, xo2)))"
| "other_generations depth t pos end_pos xo_descendants =
     (if pos < end_pos then
        (case depth of
           0 \<Rightarrow> OutOfFuel
         | Suc d \<Rightarrow>
             (case getAllDescendants d t (xo_descendants ! pos) xo_descendants of
                Aborts f \<Rightarrow> Aborts f
              | OutOfFuel \<Rightarrow> OutOfFuel
              | Returns (out, xo1) \<Rightarrow> other_generations depth t (pos + 1) end_pos xo1))
      else Returns xo_descendants)"
  by pat_completeness auto
termination
  by (relation "measures
        [\<lambda>x. case x of Inl (d, _) \<Rightarrow> d | Inr (Inl (d, _)) \<Rightarrow> d | Inr (Inr (d, _)) \<Rightarrow> d,
         \<lambda>x. case x of Inl _ \<Rightarrow> 2 | Inr (Inl _) \<Rightarrow> 1 | Inr (Inr _) \<Rightarrow> 0,
         \<lambda>x. case x of Inr (Inr (d, t, pos, end_pos, xo)) \<Rightarrow> end_pos - pos | _ \<Rightarrow> 0]")
     auto

declare getAllDescendants.simps [simp del]
declare getAllDescendantsNotFromRoot.simps [simp del]
declare other_generations.simps [simp del]

subsection \<open>Removal\<close>

text \<open>
  \<open>remove_node\<close> (lines 458-471): the last element is copied into the slot and the
  vector shrinks by one, first for \<open>m_data\<close>, then for \<open>m_parent_index\<close>; the
  closing \<open>assert(isValid())\<close> is the last step. An index at or beyond the size is an
  access out of bounds.
\<close>

definition remove_node :: "'a FlatTree \<Rightarrow> nat \<Rightarrow> 'a FlatTree outcome" where
  "remove_node t xi_index =
     (if xi_index = 0 then Returns t
      else if \<not> xi_index < length (m_data t) then Aborts OutOfBounds
      else
        let t1 = t\<lparr>m_data :=
                    butlast ((m_data t)[xi_index := m_data t ! (length (m_data t) - 1)])\<rparr> in
        if \<not> xi_index < length (m_parent_index t1) then Aborts OutOfBounds
        else
          let t2 = t1\<lparr>m_parent_index :=
                       butlast ((m_parent_index t1)
                         [xi_index := m_parent_index t1 ! (length (m_parent_index t1) - 1)])\<rparr> in
          (case isValid t2 of
             Aborts f \<Rightarrow> Aborts f
           | OutOfFuel \<Rightarrow> OutOfFuel
           | Returns v \<Rightarrow>
               if v then Returns t2 else Aborts (AssertionFailed RemoveNodeWentWrong)))"

text \<open>The loop \<open>for (std::size_t kid : descendants) remove_node(kid)\<close> of \<open>remove\<close>.\<close>

fun remove_kids :: "'a FlatTree \<Rightarrow> nat list \<Rightarrow> 'a FlatTree outcome" where
  "remove_kids t [] = Returns t"
| "remove_kids t (kid # kids) =
     (case remove_node t kid of
        Aborts f \<Rightarrow> Aborts f
      | OutOfFuel \<Rightarrow> OutOfFuel
      | Returns t1 \<Rightarrow> remove_kids t1 kids)"

text \<open>
  \<open>remove\<close> (lines 316-332). Its first argument here is the depth bound it hands to
  \<open>getAllDescendants\<close>.
\<close>

definition remove_ft :: "nat \<Rightarrow> 'a FlatTree \<Rightarrow> nat \<Rightarrow> (bool \<times> 'a FlatTree) outcome" where
  "remove_ft depth t xi_parent_id =
     (if xi_parent_id \<ge> length (m_parent_index t) then Returns (False, t)
      else
        case isValid t of
          Aborts f \<Rightarrow> Aborts f
        | OutOfFuel \<Rightarrow> OutOfFuel
        | Returns v \<Rightarrow>
            if \<not> v then Returns (False, t)
            else
              (case getAllDescendants depth t xi_parent_id [] of
                 Aborts f \<Rightarrow> Aborts f
               | OutOfFuel \<Rightarrow> OutOfFuel
               | Returns (hasKids, descendants) \<Rightarrow>
                   if \<not> hasKids then Returns (False, t)
                   else
                     (case remove_kids t descendants of
                        Aborts f \<Rightarrow> Aborts f
                      | OutOfFuel \<Rightarrow> OutOfFuel
                      | Returns t1 \<Rightarrow> Returns (True, t1))))"

subsection \<open>The tree of the construction example\<close>

text \<open>
  The eight-node tree that \<open>traverseTreeTest\<close> of \<open>main.cpp\<close> constructs and that
  \<open>modifyTreeTest\<close> builds by insertion: a root, two children, three grandchildren
  under the first child and two under the second.
\<close>

definition construction_example :: "string FlatTree" where
  "construction_example =
     \<lparr>m_data = [''root'', ''child1'', ''child2'', ''grand0'', ''grand1'', ''grand2'',
                ''grand3'', ''grand4''],
      m_parent_index = [0, 0, 0, 1, 1, 1, 2, 2]\<rparr>"

text \<open>
  A six-node tree built by insertion alone (\<open>a("r")\<close>, then \<open>a << {0,"a"}\<close>,
  \<open>{1,"b"}\<close>, \<open>{1,"c"}\<close>, \<open>{0,"d"}\<close>, \<open>{4,"e"}\<close>): node 1 has the two leaves 2 and 3
  as children, node 4 is a child of the root and node 5 a child of node 4.
\<close>

definition six_nodes :: "string FlatTree" where
  "six_nodes = \<lparr>m_data = [''r'', ''a'', ''b'', ''c'', ''d'', ''e''],
                m_parent_index = [0, 0, 1, 1, 0, 4]\<rparr>"

section \<open>Properties\<close>

lemma std_find_le: "std_find xs v \<le> length xs"
  by (induction xs) auto

lemma std_find_end_iff: "std_find xs v = length xs \<longleftrightarrow> v \<notin> set xs"
proof (induction xs)
  case Nil
  show ?case by simp
next
  case (Cons x xs)
  show ?case using Cons.IH by auto
qed

subsection \<open>What the loops compute\<close>

lemma getDescendants_loop_eq:
  "getDescendants_loop t p i b xo =
     (b \<or> filter (\<lambda>k. m_parent_index t ! k = p) [i..<size_ft t] \<noteq> [],
      xo @ filter (\<lambda>k. m_parent_index t ! k = p) [i..<size_ft t])"
proof (induction t p i b xo rule: getDescendants_loop.induct)
  case (1 t p i b xo)
  show ?case
  proof (cases "i < size_ft t")
    case False
    then show ?thesis by (simp add: getDescendants_loop.simps)
  next
    case True
    then have up: "[i..<size_ft t] = i # [i + 1..<size_ft t]"
      by (simp add: upt_conv_Cons)
    show ?thesis
    proof (cases "m_parent_index t ! i = p")
      case True
      with \<open>i < size_ft t\<close> "1.IH"(2) up show ?thesis
        by (subst getDescendants_loop.simps) simp
    next
      case False
      with \<open>i < size_ft t\<close> "1.IH"(1) up show ?thesis
        by (subst getDescendants_loop.simps) simp
    qed
  qed
qed

lemma getAllDescendantsFromRoot_loop_eq:
  "getAllDescendantsFromRoot_loop t i b xo = (b \<or> i < size_ft t, xo @ [i..<size_ft t])"
proof (induction t i b xo rule: getAllDescendantsFromRoot_loop.induct)
  case (1 t i b xo)
  show ?case
  proof (cases "i < size_ft t")
    case False
    then show ?thesis by (simp add: getAllDescendantsFromRoot_loop.simps)
  next
    case True
    then have up: "[i..<size_ft t] = i # [i + 1..<size_ft t]"
      by (simp add: upt_conv_Cons)
    from True "1.IH" up show ?thesis
      by (subst getAllDescendantsFromRoot_loop.simps) simp
  qed
qed

lemma isValid_True_iff:
  "isValid t = Returns True \<longleftrightarrow>
     length (m_data t) = length (m_parent_index t) \<and> m_parent_index t \<noteq> []
       \<and> m_parent_index t ! 0 = 0"
  by (simp add: isValid_def)

lemma getNumOfDescendants_count:
  "getNumOfDescendants t p = count_list (m_parent_index t) p"
  by (simp add: getNumOfDescendants_def getNumOfDescendantsSequential_def
      getNumOfDescendantsParallel_def)

lemma no_children_filter:
  assumes "length (m_data t) = length (m_parent_index t)"
    and "getNumOfDescendants t p = 0"
  shows "filter (\<lambda>k. m_parent_index t ! k = p) [i..<size_ft t] = []"
proof -
  from assms(2) have "p \<notin> set (m_parent_index t)"
    by (simp add: getNumOfDescendants_count count_list_0_iff)
  then have "\<forall>k < length (m_parent_index t). m_parent_index t ! k \<noteq> p"
    by (metis nth_mem)
  with assms(1) show ?thesis
    by (auto simp add: filter_empty_conv size_ft_def)
qed

lemma getDescendants_no_children:
  assumes "isValid t = Returns True" and "getNumOfDescendants t p = 0"
  shows "getDescendants t p out = Returns (False, out)"
proof -
  from assms(1) have "length (m_data t) = length (m_parent_index t)"
    by (simp add: isValid_True_iff)
  from no_children_filter [OF this assms(2), of 1] assms(1) show ?thesis
    by (simp add: getDescendants_def getDescendants_loop_eq)
qed

lemma getAllDescendants_no_children:
  assumes "isValid t = Returns True" and "getNumOfDescendants t p = 0" and "p \<noteq> 0"
  shows "getAllDescendants depth t p out = Returns (False, out)"
  using assms
  by (simp add: getAllDescendants.simps getAllDescendantsNotFromRoot.simps
      getDescendants_no_children)

lemma getAllDescendants_root:
  "getAllDescendants depth t 0 out = Returns (1 < size_ft t, out @ [1..<size_ft t])"
  by (simp add: getAllDescendants.simps getAllDescendantsFromRoot_def
      getAllDescendantsFromRoot_loop_eq)

lemma has_child_filter:
  assumes "isValid t = Returns True" and "p \<noteq> 0" and "getNumOfDescendants t p \<noteq> 0"
  shows "filter (\<lambda>k. m_parent_index t ! k = p) [1..<size_ft t] \<noteq> []"
proof -
  from assms(3) have "p \<in> set (m_parent_index t)"
    by (simp add: getNumOfDescendants_count count_list_0_iff)
  then obtain k where k: "k < length (m_parent_index t)" "m_parent_index t ! k = p"
    by (auto simp add: in_set_conv_nth)
  from assms(1) have v: "length (m_data t) = length (m_parent_index t)" "m_parent_index t ! 0 = 0"
    by (simp_all add: isValid_True_iff)
  have "k \<noteq> 0"
  proof
    assume "k = 0"
    with k(2) v(2) assms(2) show False by simp
  qed
  with k v have "k \<in> set [1..<size_ft t]" by (simp add: size_ft_def)
  with k show ?thesis by (auto simp add: filter_empty_conv)
qed

lemma getAllDescendants_has_child_not_False:
  assumes "isValid t = Returns True" and "p \<noteq> 0" and "getNumOfDescendants t p \<noteq> 0"
  shows "getAllDescendants depth t p out \<noteq> Returns (False, xo)"
  using assms(1,2) has_child_filter [OF assms]
  by (simp add: getAllDescendants.simps getAllDescendantsNotFromRoot.simps getDescendants_def
      getDescendants_loop_eq split: outcome.splits)

subsection \<open>When the descendant collection returns\<close>

text \<open>
  For a node other than the root on a valid tree there are three cases. A node without
  children: the call returns false. A node whose children are all leaves: the call
  returns true with the children, in ascending order. A node with a child that has a
  child of its own: the inner loop starts again at position 0 of the shared output
  collection, reaches the same child again and recurses without end, so the call does
  not return for any depth bound.
\<close>

lemma getDescendants_from_empty:
  assumes "isValid t = Returns True" and "p \<noteq> 0"
    and "getDescendants t p [] = Returns (b, ks)"
  shows "getDescendants t p xo = Returns (b, xo @ ks)" and "b = (ks \<noteq> [])" and "0 \<notin> set ks"
  using assms by (auto simp add: getDescendants_def getDescendants_loop_eq)

lemma getAllDescendants_leaf:
  assumes "isValid t = Returns True" and "p \<noteq> 0"
    and "getDescendants t p [] = Returns (False, ks)"
  shows "getAllDescendants depth t p xo = Returns (False, xo)"
proof -
  from getDescendants_from_empty(2) [OF assms] have "ks = []" by simp
  with getDescendants_from_empty(1) [OF assms, of xo] assms(2) show ?thesis
    by (simp add: getAllDescendants.simps getAllDescendantsNotFromRoot.simps)
qed

lemma other_generations_leaves:
  assumes "isValid t = Returns True"
    and "\<forall>j. pos \<le> j \<and> j < end_pos \<longrightarrow>
           xo ! j \<noteq> 0 \<and> getDescendants t (xo ! j) [] = Returns (False, [])"
  shows "other_generations (Suc d) t pos end_pos xo = Returns xo"
  using assms(2)
proof (induction "end_pos - pos" arbitrary: pos)
  case 0
  then show ?case by (simp add: other_generations.simps)
next
  case (Suc n)
  then have lt: "pos < end_pos" by simp
  with Suc.prems have here: "xo ! pos \<noteq> 0" "getDescendants t (xo ! pos) [] = Returns (False, [])"
    by auto
  from Suc.hyps(2) have n: "n = end_pos - (pos + 1)" by simp
  from Suc.prems have rest: "\<forall>j. pos + 1 \<le> j \<and> j < end_pos \<longrightarrow>
           xo ! j \<noteq> 0 \<and> getDescendants t (xo ! j) [] = Returns (False, [])"
    by simp
  from Suc.hyps(1) [OF n rest] lt getAllDescendants_leaf [OF assms(1) here, of d xo]
  show ?case
    by (subst other_generations.simps) simp
qed

lemma getAllDescendants_one_generation:
  assumes "isValid t = Returns True" and "p \<noteq> 0"
    and "getDescendants t p [] = Returns (True, ks)"
    and "\<forall>c \<in> set ks. getDescendants t c [] = Returns (False, [])"
  shows "getAllDescendants (Suc d) t p [] = Returns (True, ks)"
proof -
  from getDescendants_from_empty(3) [OF assms(1-3)] assms(4)
  have "\<forall>j. 0 \<le> j \<and> j < length ks \<longrightarrow>
           ks ! j \<noteq> 0 \<and> getDescendants t (ks ! j) [] = Returns (False, [])"
    by (metis nth_mem)
  from other_generations_leaves [OF assms(1) this, of d] assms(2,3) show ?thesis
    by (simp add: getAllDescendants.simps getAllDescendantsNotFromRoot.simps)
qed

lemma other_generations_diverges:
  assumes "isValid t = Returns True"
  shows "j < length xo \<Longrightarrow> xo ! j \<noteq> 0 \<Longrightarrow> getDescendants t (xo ! j) [] = Returns (True, gs)
    \<Longrightarrow> \<forall>i < j. xo ! i \<noteq> 0 \<and> getDescendants t (xo ! i) [] = Returns (False, [])
    \<Longrightarrow> pos \<le> j \<Longrightarrow> j < end_pos
    \<Longrightarrow> other_generations depth t pos end_pos xo = OutOfFuel"
proof (induction depth arbitrary: xo pos end_pos)
  case 0
  then show ?case by (simp add: other_generations.simps)
next
  case (Suc d)
  note jlen = Suc.prems(1) and nz = Suc.prems(2) and parent = Suc.prems(3)
    and before = Suc.prems(4) and jend = Suc.prems(6) and outer = Suc.IH
  from Suc.prems(5) show ?case
  proof (induction "j - pos" arbitrary: pos)
    case 0
    then have "pos = j" by simp
    have pre: "\<forall>i < j. (xo @ gs) ! i \<noteq> 0
        \<and> getDescendants t ((xo @ gs) ! i) [] = Returns (False, [])"
      using jlen before by (simp add: nth_append)
    have at: "(xo @ gs) ! j \<noteq> 0" "getDescendants t ((xo @ gs) ! j) [] = Returns (True, gs)"
      using jlen nz parent by (simp_all add: nth_append)
    have "other_generations d t 0 (length (xo @ gs)) (xo @ gs) = OutOfFuel"
      by (rule outer [OF _ at pre]) (use jlen in simp_all)
    with getDescendants_from_empty(1) [OF assms nz parent, of xo] nz jend \<open>pos = j\<close>
    show ?case
      by (subst other_generations.simps)
        (simp add: getAllDescendants.simps getAllDescendantsNotFromRoot.simps)
  next
    case (Suc n)
    then have lt: "pos < j" by simp
    with before
    have here: "xo ! pos \<noteq> 0" "getDescendants t (xo ! pos) [] = Returns (False, [])"
      by auto
    from Suc.hyps(2) have n: "n = j - (pos + 1)" by simp
    from lt have le: "pos + 1 \<le> j" by simp
    from Suc.hyps(1) [OF n le] lt jend
      getAllDescendants_leaf [OF assms here, of d xo]
    show ?case
      by (subst other_generations.simps) simp
  qed
qed

lemma getDescendants_cases:
  assumes "isValid t = Returns True" and "q \<noteq> 0"
  shows "getDescendants t q [] = Returns (False, [])
    \<or> (\<exists>gs. getDescendants t q [] = Returns (True, gs))"
  using assms by (simp add: getDescendants_def getDescendants_loop_eq)

lemma getAllDescendants_two_generations_diverges:
  assumes "isValid t = Returns True" and "p \<noteq> 0"
    and "getDescendants t p [] = Returns (True, ks)"
    and "c \<in> set ks" and "getDescendants t c [] = Returns (True, gs)"
  shows "getAllDescendants depth t p [] = OutOfFuel"
proof -
  define P where "P j \<longleftrightarrow> j < length ks \<and> (\<exists>gs. getDescendants t (ks ! j) [] = Returns (True, gs))"
    for j
  from assms(4,5) obtain j0 where "P j0"
    by (auto simp add: in_set_conv_nth P_def)
  define j where "j = (LEAST j. P j)"
  from \<open>P j0\<close> have "P j" unfolding j_def by (rule LeastI)
  then obtain gs' where jlen: "j < length ks"
    and jkids: "getDescendants t (ks ! j) [] = Returns (True, gs')"
    by (auto simp add: P_def)
  have nz: "\<forall>i < length ks. ks ! i \<noteq> 0"
    using getDescendants_from_empty(3) [OF assms(1-3)] by (metis nth_mem)
  have before: "\<forall>i < j. ks ! i \<noteq> 0 \<and> getDescendants t (ks ! i) [] = Returns (False, [])"
  proof (intro allI impI)
    fix i assume "i < j"
    then have "\<not> P i" unfolding j_def by (rule not_less_Least)
    moreover from \<open>i < j\<close> jlen have ilen: "i < length ks" by simp
    moreover from ilen nz have "ks ! i \<noteq> 0" by simp
    ultimately show "ks ! i \<noteq> 0 \<and> getDescendants t (ks ! i) [] = Returns (False, [])"
      using getDescendants_cases [OF assms(1), of "ks ! i"] by (auto simp add: P_def)
  qed
  from nz jlen have "ks ! j \<noteq> 0" by simp
  from other_generations_diverges [OF assms(1) jlen this jkids before, of 0 "length ks" depth] jlen
  have "other_generations depth t 0 (length ks) ks = OutOfFuel" by simp
  with assms(2,3) show ?thesis
    by (simp add: getAllDescendants.simps getAllDescendantsNotFromRoot.simps)
qed

lemma remove_two_generations_never_returns:
  assumes "isValid t = Returns True" and "0 < p" and "p < size_ft t"
    and "getDescendants t p [] = Returns (True, ks)"
    and "c \<in> set ks" and "getDescendants t c [] = Returns (True, gs)"
  shows "remove_ft depth t p = OutOfFuel"
proof -
  from assms(1,3) have "\<not> length (m_parent_index t) \<le> p"
    by (simp add: isValid_True_iff size_ft_def)
  moreover from assms(2) have "p \<noteq> 0" by simp
  from getAllDescendants_two_generations_diverges [OF assms(1) this assms(4,5,6), of depth]
  have "getAllDescendants depth t p [] = OutOfFuel" .
  ultimately show ?thesis using assms(1)
    by (simp add: remove_ft_def)
qed

lemma remove_one_generation:
  assumes "isValid t = Returns True" and "0 < p" and "p < size_ft t"
    and "getDescendants t p [] = Returns (True, ks)"
    and "\<forall>c \<in> set ks. getDescendants t c [] = Returns (False, [])"
  shows "remove_ft (Suc depth) t p =
    (case remove_kids t ks of
       Aborts f \<Rightarrow> Aborts f
     | OutOfFuel \<Rightarrow> OutOfFuel
     | Returns t1 \<Rightarrow> Returns (True, t1))"
proof -
  from assms(1,3) have "\<not> length (m_parent_index t) \<le> p"
    by (simp add: isValid_True_iff size_ft_def)
  moreover from assms(2) have "p \<noteq> 0" by simp
  from getAllDescendants_one_generation [OF assms(1) this assms(4,5), of depth]
  have "getAllDescendants (Suc depth) t p [] = Returns (True, ks)" .
  ultimately show ?thesis using assms(1)
    by (simp add: remove_ft_def)
qed

subsection \<open>The construction example\<close>

text \<open>
  C2 (as the code has it). The tree constructed from the values
  root, child1, child2, grand0, ..., grand4 and the parent indices 0,0,0,1,1,1,2,2 has
  \<open>getNumOfDescendants(0) = 3\<close>: the count runs over the whole parent-index vector
  and the root's own entry \<open>m_parent_index[0] = 0\<close> is one of the matches, as
  \<open>modifyTreeTest\<close> asserts (\<open>num_of_root_nodes == 3\<close>). The other five values are
  the claimed ones: \<open>getNumOfDescendants(1) = 3\<close>, \<open>getNumOfDescendants(2) = 2\<close>,
  \<open>isLeaf(3)\<close> is true, \<open>isLeaf(0)\<close> is false and \<open>getParentIndex(5) = 1\<close>.
\<close>

theorem construction_example_queries:
  "FlatTree_vector
      [''root'', ''child1'', ''child2'', ''grand0'', ''grand1'', ''grand2'', ''grand3'', ''grand4'']
      [0, 0, 0, 1, 1, 1, 2, 2] = Returns construction_example
   \<and> getNumOfDescendants construction_example 0 = 3
   \<and> getNumOfDescendants construction_example 1 = 3
   \<and> getNumOfDescendants construction_example 2 = 2
   \<and> isLeaf construction_example 3 = Returns True
   \<and> isLeaf construction_example 0 = Returns False
   \<and> getParentIndex construction_example 5 = Returns 1"
  by (simp add: FlatTree_vector_def construction_example_def getNumOfDescendants_count
      isLeaf_def getParentIndex_def isValid_def)

text \<open>
  C2 as stated, with \<open>descendant_count(0) = 2\<close>, does not hold of that tree.
\<close>

theorem construction_example_root_count_counterexample:
  "\<not> (getNumOfDescendants construction_example 0 = 2
      \<and> getNumOfDescendants construction_example 1 = 3
      \<and> getNumOfDescendants construction_example 2 = 2
      \<and> isLeaf construction_example 3 = Returns True
      \<and> isLeaf construction_example 0 = Returns False
      \<and> getParentIndex construction_example 5 = Returns 1)"
  by (simp add: construction_example_def getNumOfDescendants_count)

subsection \<open>Construction\<close>

text \<open>
  C4 (the code at the failing input). The claim asks every constructor from two
  sequences to reject a first parent entry other than 0. The constructor for two
  \<open>std::vector\<close>s asserts the equal sizes only: from the values root, child and the
  parent indices 1, 0 it returns a tree whose root entry is 1, where the constructor for
  other collections stops at its assertion on the root.
\<close>

theorem vector_constructor_accepts_bad_root:
  "FlatTree_vector [''root'', ''child''] [1, 0]
     = Returns \<lparr>m_data = [''root'', ''child''], m_parent_index = [1, 0]\<rparr>
   \<and> FlatTree_collections [''root'', ''child''] [1, 0]
     = Aborts (AssertionFailed RootNotFirstNode)"
  by (simp add: FlatTree_vector_def FlatTree_collections_def)

subsection \<open>The invariants under resize\<close>

text \<open>
  \<open>insert\<close>, \<open>clear\<close>, \<open>remove\<close> and a \<open>resize\<close> to at least one element keep a valid
  tree valid.
\<close>

lemma clear_keeps_root:
  "m_data t \<noteq> [] \<Longrightarrow> clear t = Returns (FlatTree_root (m_data t ! 0))"
  by (simp add: clear_def FlatTree_root_def)

lemma clear_valid:
  "clear t = Returns t1 \<Longrightarrow> isValid t1 = Returns True \<and> size_ft t1 = 1"
  by (auto simp add: clear_def isValid_def size_ft_def split: if_splits)

lemma insert_preserves_validity:
  "isValid t = Returns True \<Longrightarrow> insert_ft t parent v = Returns (b, t1) \<Longrightarrow> isValid t1 = Returns True"
  by (auto simp add: insert_ft_def isValid_def nth_append split: if_splits)

lemma resize_keeps_validity:
  "isValid t = Returns True \<Longrightarrow> 1 \<le> n \<Longrightarrow> isValid (resize dflt t n) = Returns True"
  by (auto simp add: resize_def vector_resize_def isValid_True_iff nth_append)

lemma remove_node_preserves_validity:
  "remove_node t k = Returns t1 \<Longrightarrow> isValid t = Returns True \<Longrightarrow> isValid t1 = Returns True"
  by (auto simp add: remove_node_def Let_def split: if_splits outcome.splits)

lemma remove_kids_preserves_validity:
  "remove_kids t ks = Returns t1 \<Longrightarrow> isValid t = Returns True \<Longrightarrow> isValid t1 = Returns True"
proof (induction ks arbitrary: t)
  case Nil
  then show ?case by simp
next
  case (Cons k ks)
  then show ?case
    by (auto split: outcome.splits dest: remove_node_preserves_validity)
qed

lemma remove_preserves_validity:
  "remove_ft depth t p = Returns (b, t1) \<Longrightarrow> isValid t = Returns True \<Longrightarrow> isValid t1 = Returns True"
  by (auto simp add: remove_ft_def split: if_splits outcome.splits dest: remove_kids_preserves_validity)

text \<open>
  C5 (the code at the failing input). \<open>resize(0)\<close> on a freshly constructed
  single-root tree empties both vectors: the tree has no root any more, \<open>size()\<close> is
  0, and the check of \<open>m_parent_index[0]\<close> in \<open>isValid\<close> reads out of bounds.
\<close>

theorem resize_to_zero_drops_root:
  "resize dflt (FlatTree_root r) 0 = \<lparr>m_data = [], m_parent_index = []\<rparr>
   \<and> size_ft (resize dflt (FlatTree_root r) 0) = 0
   \<and> isValid (resize dflt (FlatTree_root r) 0) = Aborts OutOfBounds"
  by (simp add: resize_def FlatTree_root_def vector_resize_def size_ft_def isValid_def)

subsection \<open>Insertion\<close>

text \<open>
  C8. For every tree, parent index and value: \<open>insert\<close> returns false and leaves both
  vectors as they were when the parent index is not below \<open>size()\<close> or the tree is
  invalid (\<open>isValid\<close> is false: the vectors differ in length, or the root entry is not
  0). Otherwise it returns true, the value is appended to \<open>m_data\<close> and the parent
  index to \<open>m_parent_index\<close>, \<open>size()\<close> has grown by one, and \<open>getParentIndex\<close> of
  the new last index is the given parent.
\<close>

theorem insert_appends_or_fails:
  "(if size_ft t \<le> parent \<or> isValid t = Returns False
    then insert_ft t parent v = Returns (False, t)
    else (\<exists>t'. insert_ft t parent v = Returns (True, t')
            \<and> m_data t' = m_data t @ [v]
            \<and> m_parent_index t' = m_parent_index t @ [parent]
            \<and> size_ft t' = size_ft t + 1
            \<and> getParentIndex t' (size_ft t' - 1) = Returns parent))"
  by (auto simp add: insert_ft_def isValid_def size_ft_def getParentIndex_def nth_append)

theorem insert_appends_or_fails_witness:
  "insert_ft (FlatTree_root ''root'') 0 ''child1''
     = Returns (True, \<lparr>m_data = [''root'', ''child1''], m_parent_index = [0, 0]\<rparr>)
   \<and> insert_ft (FlatTree_root ''root'') 1 ''child1'' = Returns (False, FlatTree_root ''root'')"
  using insert_appends_or_fails [of "FlatTree_root ''root''" 0 "''child1''"]
    insert_appends_or_fails [of "FlatTree_root ''root''" 1 "''child1''"]
  by (auto simp add: FlatTree_root_def size_ft_def isValid_def)

subsection \<open>Immediate children\<close>

text \<open>
  C9. On a tree that has its root (\<open>size() \<ge> 1\<close>), for every output collection:
  \<open>getDescendants(0, out)\<close> returns false and leaves \<open>out\<close> unchanged. For every
  parent other than 0 on a valid tree, \<open>getDescendants(parent, out)\<close> appends exactly
  the indices \<open>k\<close> with \<open>m_parent_index[k] = parent\<close>, in ascending order; it returns
  true when there is such an index, and false, with \<open>out\<close> unchanged, when there is
  none.
\<close>

theorem children_of_spec:
  assumes "1 \<le> size_ft t"
  shows "getDescendants t 0 out = Returns (False, out)
    \<and> (parent \<noteq> 0 \<and> isValid t = Returns True \<longrightarrow>
         getDescendants t parent out =
           Returns (filter (\<lambda>k. m_parent_index t ! k = parent) [0..<size_ft t] \<noteq> [],
                    out @ filter (\<lambda>k. m_parent_index t ! k = parent) [0..<size_ft t]))"
proof (intro conjI impI)
  from assms show "getDescendants t 0 out = Returns (False, out)"
    by (auto simp add: getDescendants_def isValid_def size_ft_def)
next
  assume h: "parent \<noteq> 0 \<and> isValid t = Returns True"
  then have root: "m_parent_index t ! 0 = 0" and pos: "0 < size_ft t"
    by (auto simp add: isValid_True_iff size_ft_def)
  from pos have "[0..<size_ft t] = 0 # [1..<size_ft t]"
    by (simp add: upt_conv_Cons)
  with h root have
    "filter (\<lambda>k. m_parent_index t ! k = parent) [0..<size_ft t]
       = filter (\<lambda>k. m_parent_index t ! k = parent) [1..<size_ft t]"
    by auto
  with h show "getDescendants t parent out =
      Returns (filter (\<lambda>k. m_parent_index t ! k = parent) [0..<size_ft t] \<noteq> [],
               out @ filter (\<lambda>k. m_parent_index t ! k = parent) [0..<size_ft t])"
    by (simp add: getDescendants_def getDescendants_loop_eq)
qed

theorem children_of_spec_witness:
  "1 \<le> size_ft construction_example
   \<and> getDescendants construction_example 0 [7] = Returns (False, [7])
   \<and> getDescendants construction_example 1 [7] = Returns (True, [7, 3, 4, 5])
   \<and> getDescendants construction_example 3 [7] = Returns (False, [7])"
  using children_of_spec [of construction_example "[7]" 1]
    children_of_spec [of construction_example "[7]" 3]
  by (simp add: construction_example_def size_ft_def isValid_def)

subsection \<open>Removing a leaf\<close>

text \<open>
  C7. On a valid tree, for every index \<open>i\<close> with \<open>0 < i < size()\<close> that is a leaf
  (no entry of \<open>m_parent_index\<close> equals \<open>i\<close>), \<open>remove(i)\<close> returns false and both
  vectors are as before, whatever the depth bound.
\<close>

theorem remove_leaf_fails:
  assumes "isValid t = Returns True" and "0 < i" and "i < size_ft t"
    and "isLeaf t i = Returns True"
  shows "remove_ft depth t i = Returns (False, t)"
proof -
  from assms(4) have leaf: "getNumOfDescendants t i = 0"
    by (simp add: isLeaf_def split: if_splits)
  from assms(1,3) have "\<not> length (m_parent_index t) \<le> i"
    by (simp add: isValid_True_iff size_ft_def)
  with assms(1,2) leaf show ?thesis
    by (simp add: remove_ft_def getAllDescendants_no_children)
qed

theorem remove_leaf_fails_witness:
  "isValid construction_example = Returns True \<and> isLeaf construction_example 3 = Returns True
   \<and> remove_ft 0 construction_example 3 = Returns (False, construction_example)"
  using remove_leaf_fails [of construction_example 3 0]
  by (simp add: construction_example_def size_ft_def isValid_def isLeaf_def
      getNumOfDescendants_count)

subsection \<open>The root in the scans\<close>

text \<open>
  C10. For every tree whose parent-index vector starts with the root entry 0, the
  single-node tree included: \<open>doesIndexExist(0)\<close> is true, \<open>getNumOfDescendants(0)\<close>
  is at least 1 and \<open>isLeaf(0)\<close> is false, because the scans run over the whole vector
  and entry 0 matches.
\<close>

theorem root_is_never_a_leaf:
  assumes "m_parent_index t \<noteq> []" and "m_parent_index t ! 0 = 0"
  shows "doesIndexExist t 0 = True \<and> 1 \<le> getNumOfDescendants t 0
    \<and> isLeaf t 0 = Returns False"
proof -
  from assms have mem: "0 \<in> set (m_parent_index t)"
    by (metis length_greater_0_conv nth_mem)
  then have "count_list (m_parent_index t) 0 \<noteq> 0"
    by (simp add: count_list_0_iff)
  moreover from mem have "std_find (m_parent_index t) 0 \<noteq> length (m_parent_index t)"
    by (simp add: std_find_end_iff)
  ultimately show ?thesis using assms(1)
    by (simp add: doesIndexExist_def doesIndexExistSequential_def doesIndexExistParallel_def
        getNumOfDescendants_def getNumOfDescendantsSequential_def getNumOfDescendantsParallel_def
        isLeaf_def Let_def)
qed

theorem root_is_never_a_leaf_witness:
  "m_parent_index (FlatTree_root ''root'') \<noteq> [] \<and> m_parent_index (FlatTree_root ''root'') ! 0 = 0
   \<and> doesIndexExist (FlatTree_root ''root'') 0 = True
   \<and> 1 \<le> getNumOfDescendants (FlatTree_root ''root'') 0
   \<and> isLeaf (FlatTree_root ''root'') 0 = Returns False"
  using root_is_never_a_leaf [of "FlatTree_root ''root''"]
  by (simp add: FlatTree_root_def)

subsection \<open>All descendants\<close>

text \<open>
  C6 (as the code has it). For every tree and every output collection,
  \<open>getAllDescendants(0, out)\<close> appends the indices 1 to \<open>size() - 1\<close> in ascending
  order, and it returns true exactly when \<open>size() > 1\<close>: on a tree that is only a
  root it returns false although the parent is 0. For every parent other than 0 on a valid
  tree, the call returns false if and only if the parent has no children at all, and then
  \<open>out\<close> is unchanged.
\<close>

theorem all_descendants_spec:
  "getAllDescendants depth t 0 out = Returns (1 < size_ft t, out @ [1..<size_ft t])
   \<and> (parent \<noteq> 0 \<and> isValid t = Returns True \<longrightarrow>
        ((\<exists>xo. getAllDescendants depth t parent out = Returns (False, xo))
           \<longleftrightarrow> getNumOfDescendants t parent = 0)
        \<and> (getNumOfDescendants t parent = 0 \<longrightarrow>
             getAllDescendants depth t parent out = Returns (False, out)))"
proof (intro conjI impI)
  show "getAllDescendants depth t 0 out = Returns (1 < size_ft t, out @ [1..<size_ft t])"
    by (rule getAllDescendants_root)
next
  assume h: "parent \<noteq> 0 \<and> isValid t = Returns True"
  show "(\<exists>xo. getAllDescendants depth t parent out = Returns (False, xo))
          \<longleftrightarrow> getNumOfDescendants t parent = 0"
  proof
    assume "\<exists>xo. getAllDescendants depth t parent out = Returns (False, xo)"
    with h getAllDescendants_has_child_not_False [of t parent depth out]
    show "getNumOfDescendants t parent = 0" by blast
  next
    assume "getNumOfDescendants t parent = 0"
    with h getAllDescendants_no_children [of t parent depth out]
    show "\<exists>xo. getAllDescendants depth t parent out = Returns (False, xo)" by blast
  qed
next
  assume "parent \<noteq> 0 \<and> isValid t = Returns True" and "getNumOfDescendants t parent = 0"
  then show "getAllDescendants depth t parent out = Returns (False, out)"
    by (simp add: getAllDescendants_no_children)
qed

theorem all_descendants_spec_witness:
  "getAllDescendants 1 construction_example 0 [9] = Returns (True, [9, 1, 2, 3, 4, 5, 6, 7])
   \<and> getAllDescendants 1 construction_example 3 [9] = Returns (False, [9])
   \<and> getAllDescendants 1 construction_example 1 [] \<noteq> Returns (False, [])"
  using all_descendants_spec [of 1 construction_example "[9]" 3]
    all_descendants_spec [of 1 construction_example "[]" 1]
  by (simp add: construction_example_def size_ft_def isValid_def getNumOfDescendants_count
      upt_conv_Cons)

text \<open>
  C6 as stated (false is returned if and only if the parent is not 0 and has no children)
  fails on the tree that is only a root: the call for parent 0 returns false.
\<close>

theorem all_descendants_single_node_counterexample:
  "getAllDescendants 0 (FlatTree_root ''root'') 0 [] = Returns (False, [])
   \<and> \<not> ((0::nat) \<noteq> 0 \<and> getNumOfDescendants (FlatTree_root ''root'') 0 = 0)"
  by (simp add: getAllDescendants_root FlatTree_root_def size_ft_def)

subsection \<open>Removing the root\<close>

text \<open>
  C1 (as the code has it). For every depth bound: on a tree that has no node besides the
  root (\<open>size() \<le> 1\<close>) or that is invalid, \<open>remove(0)\<close> returns false and both
  vectors are exactly as before. On a valid tree of the root and exactly one other node,
  \<open>remove(0)\<close> returns true and deletes that node, so that only the root is left:
  \<open>getAllDescendantsFromRoot\<close> reports the non-root index 1 and the removal loop
  removes it.
\<close>

theorem remove_root_spec:
  "(size_ft t \<le> 1 \<or> isValid t = Returns False \<longrightarrow>
        remove_ft depth t 0 = Returns (False, t))
   \<and> (isValid t = Returns True \<and> size_ft t = 2 \<longrightarrow>
        remove_ft depth t 0 = Returns (True, \<lparr>m_data = [m_data t ! 0], m_parent_index = [0]\<rparr>))"
proof (intro conjI impI)
  assume small: "size_ft t \<le> 1 \<or> isValid t = Returns False"
  show "remove_ft depth t 0 = Returns (False, t)"
  proof (cases "m_parent_index t = []")
    case True
    then show ?thesis
      by (simp add: remove_ft_def)
  next
    case False
    show ?thesis
    proof (cases "isValid t = Returns True")
      case True
      with small have "\<not> 1 < size_ft t"
        by auto
      with False True show ?thesis
        by (simp add: remove_ft_def getAllDescendants_root)
    next
      case nv: False
      with False have "isValid t = Returns False"
        by (auto simp add: isValid_def split: if_splits)
      with False show ?thesis
        by (simp add: remove_ft_def)
    qed
  qed
next
  assume h: "isValid t = Returns True \<and> size_ft t = 2"
  then have len: "length (m_data t) = 2" "length (m_parent_index t) = 2"
    and root: "m_parent_index t ! 0 = 0"
    by (simp_all add: isValid_True_iff size_ft_def)
  from len(1) obtain a b where d: "m_data t = [a, b]"
    by (cases "m_data t"; cases "tl (m_data t)") auto
  from len(2) root obtain q where p: "m_parent_index t = [0, q]"
    by (cases "m_parent_index t"; cases "tl (m_parent_index t)") auto
  have up: "[1..<2] = [1::nat]" by (simp add: upt_conv_Cons)
  from h d p up show
    "remove_ft depth t 0 = Returns (True, \<lparr>m_data = [m_data t ! 0], m_parent_index = [0]\<rparr>)"
    by (simp add: remove_ft_def getAllDescendants_root size_ft_def remove_node_def isValid_def)
qed

theorem remove_root_spec_witness:
  "size_ft (FlatTree_root ''root'') \<le> 1
   \<and> remove_ft 0 (FlatTree_root ''root'') 0 = Returns (False, FlatTree_root ''root'')
   \<and> isValid \<lparr>m_data = [''root'', ''child1''], m_parent_index = [0, 0]\<rparr> = Returns True
   \<and> size_ft \<lparr>m_data = [''root'', ''child1''], m_parent_index = [0, 0]\<rparr> = 2
   \<and> remove_ft 0 \<lparr>m_data = [''root'', ''child1''], m_parent_index = [0, 0]\<rparr> 0
       = Returns (True, \<lparr>m_data = [''root''], m_parent_index = [0]\<rparr>)"
  using remove_root_spec [of "FlatTree_root ''root''" 0]
    remove_root_spec [of "\<lparr>m_data = [''root'', ''child1''], m_parent_index = [0, 0]\<rparr>" 0]
  by (simp add: FlatTree_root_def size_ft_def isValid_def)

text \<open>
  C1 as stated fails on a root with one child: \<open>remove(0)\<close> returns true and the
  child is gone.
\<close>

theorem remove_root_with_child_counterexample:
  "remove_ft 0 \<lparr>m_data = [''root'', ''child1''], m_parent_index = [0, 0]\<rparr> 0
     = Returns (True, \<lparr>m_data = [''root''], m_parent_index = [0]\<rparr>)
   \<and> remove_ft 0 \<lparr>m_data = [''root'', ''child1''], m_parent_index = [0, 0]\<rparr> 0
     \<noteq> Returns (False, \<lparr>m_data = [''root'', ''child1''], m_parent_index = [0, 0]\<rparr>)"
  by (simp add: remove_ft_def getAllDescendants_root size_ft_def remove_node_def isValid_def
      upt_conv_Cons)

subsection \<open>Removing a subtree\<close>

text \<open>
  The tree \<open>six_nodes\<close> is what five insertions build, and two smaller trees show the
  other ways \<open>remove\<close> goes wrong: on the chain root, a, b, c the call \<open>remove(1)\<close>
  does not return, and on a tree whose last node is a child of the target the second
  \<open>remove_node\<close> writes outside the vector.
\<close>

lemma six_nodes_by_insertion:
  "insert_ft (FlatTree_root ''r'') 0 ''a'' = Returns (True, \<lparr>m_data = [''r'', ''a''], m_parent_index = [0, 0]\<rparr>)
   \<and> insert_ft \<lparr>m_data = [''r'', ''a''], m_parent_index = [0, 0]\<rparr> 1 ''b''
       = Returns (True, \<lparr>m_data = [''r'', ''a'', ''b''], m_parent_index = [0, 0, 1]\<rparr>)
   \<and> insert_ft \<lparr>m_data = [''r'', ''a'', ''b''], m_parent_index = [0, 0, 1]\<rparr> 1 ''c''
       = Returns (True, \<lparr>m_data = [''r'', ''a'', ''b'', ''c''], m_parent_index = [0, 0, 1, 1]\<rparr>)
   \<and> insert_ft \<lparr>m_data = [''r'', ''a'', ''b'', ''c''], m_parent_index = [0, 0, 1, 1]\<rparr> 0 ''d''
       = Returns (True, \<lparr>m_data = [''r'', ''a'', ''b'', ''c'', ''d''], m_parent_index = [0, 0, 1, 1, 0]\<rparr>)
   \<and> insert_ft \<lparr>m_data = [''r'', ''a'', ''b'', ''c'', ''d''], m_parent_index = [0, 0, 1, 1, 0]\<rparr> 4 ''e''
       = Returns (True, six_nodes)"
  by (simp add: insert_ft_def FlatTree_root_def isValid_def six_nodes_def)

lemma remove_chain_never_returns:
  "remove_ft depth \<lparr>m_data = [''r'', ''a'', ''b'', ''c''], m_parent_index = [0, 0, 1, 2]\<rparr> 1
     = OutOfFuel"
  by (rule remove_two_generations_never_returns [where ks = "[2]" and c = 2 and gs = "[3]"])
    (simp_all add: isValid_def size_ft_def getDescendants_def getDescendants_loop.simps)

lemma remove_out_of_bounds_example:
  "remove_ft (Suc depth) \<lparr>m_data = [''r'', ''a'', ''b'', ''c'', ''d''], m_parent_index = [0, 0, 1, 0, 1]\<rparr> 1
     = Aborts OutOfBounds"
  by (simp add: remove_ft_def isValid_def getAllDescendants.simps
      getAllDescendantsNotFromRoot.simps other_generations.simps getDescendants_def
      getDescendants_loop.simps size_ft_def remove_node_def)

text \<open>
  C3 (the code at the failing input). The claim asks that after a successful
  \<open>remove(i)\<close> the remaining nodes still form a forest rooted at 0. On \<open>six_nodes\<close>,
  \<open>remove(1)\<close> returns true for every depth bound of at least 1. Before the call the
  parent chain of node 5 (value e) is 5, 4, 0. The two removals move e to index 2 and its
  parent d from index 4 to index 3 without updating the parent entry of e: afterwards the
  tree has four nodes, \<open>getParentIndex(2)\<close> is 4, and 4 is not an index of the tree.
\<close>

theorem remove_leaves_dangling_parent:
  "remove_ft (Suc depth) six_nodes 1
     = Returns (True, \<lparr>m_data = [''r'', ''a'', ''e'', ''d''], m_parent_index = [0, 0, 4, 0]\<rparr>)
   \<and> getParentIndex six_nodes 5 = Returns 4
   \<and> getParentIndex six_nodes 4 = Returns 0
   \<and> getParentIndex \<lparr>m_data = [''r'', ''a'', ''e'', ''d''], m_parent_index = [0, 0, 4, 0]\<rparr> 2
       = Returns 4
   \<and> getParentIndex \<lparr>m_data = [''r'', ''a'', ''e'', ''d''], m_parent_index = [0, 0, 4, 0]\<rparr> 4
       = Aborts (AssertionFailed NodeIndexInvalid)"
  by (simp add: six_nodes_def remove_ft_def isValid_def getAllDescendants.simps
      getAllDescendantsNotFromRoot.simps other_generations.simps getDescendants_def
      getDescendants_loop.simps size_ft_def remove_node_def getParentIndex_def)

end
